theory Spec2Isabelle
  imports Main "HOL-Library.Word" "HOL-Library.Sublist"
begin

text \<open>
  The vault engine of the repository: the encryption class
  (\<open>server/utils/encryption.js\<close>), the blob store (\<open>utils/storage.js\<close>), the
  download handler of the file routes and the cleanup handler of the storage
  routes (\<open>server/routes/storage.js\<close>), as functions over explicit state.
  What the code takes from the runtime (random bytes, the clock, the
  cryptographic primitives) is an argument of the function that uses it.
\<close>

section \<open>Buffers and the text encodings of the runtime\<close>

text \<open>
  A Node \<open>Buffer\<close> is a list of bytes. A JavaScript string is modelled as a
  \<^typ>\<open>string\<close>: a list of code units below 256 (the Latin-1 range). Every
  string the vault engine builds itself (hexadecimal text, base64 text, the
  serialized cipher metadata) is ASCII.
\<close>

type_synonym byte = "8 word"
type_synonym buffer = "byte list"

subsection \<open>Hexadecimal: \<open>buf.toString('hex')\<close> and \<open>Buffer.from(s, 'hex')\<close>\<close>

definition hex_digits :: string where
  "hex_digits = ''0123456789abcdef''"

definition byte_hex :: "byte \<Rightarrow> string" where
  "byte_hex b = [hex_digits ! (unat b div 16), hex_digits ! (unat b mod 16)]"

definition toString_hex :: "buffer \<Rightarrow> string" where
  "toString_hex bs = concat (map byte_hex bs)"

definition unhex :: "char \<Rightarrow> nat option" where
  "unhex c =
     (let n = (of_char c :: nat) in
      if 48 \<le> n \<and> n \<le> 57 then Some (n - 48)
      else if 65 \<le> n \<and> n \<le> 70 then Some (n - 55)
      else if 97 \<le> n \<and> n \<le> 102 then Some (n - 87)
      else None)"

text \<open>
  Decoding reads the string two characters at a time and stops at the first
  pair that is not two hexadecimal digits; a trailing single character is
  dropped. Nothing is raised: the result is just shorter.
\<close>

fun from_hex :: "string \<Rightarrow> buffer" where
  "from_hex (a # b # rest) =
     (case unhex a of
        None \<Rightarrow> []
      | Some hi \<Rightarrow>
          (case unhex b of
             None \<Rightarrow> []
           | Some lo \<Rightarrow> of_nat (16 * hi + lo) # from_hex rest))"
| "from_hex [a] = []"
| "from_hex [] = []"

subsection \<open>Base64: \<open>buf.toString('base64')\<close> and \<open>Buffer.from(s, 'base64')\<close>\<close>

definition base64_chars :: string where
  "base64_chars = ''ABCDEFGHIJKLMNOPQRSTUVWXYZabcdefghijklmnopqrstuvwxyz0123456789+/''"

definition b64 :: "nat \<Rightarrow> char" where
  "b64 n = base64_chars ! n"

fun toString_base64 :: "buffer \<Rightarrow> string" where
  "toString_base64 (a # b # c # rest) =
     [b64 (unat a div 4),
      b64 (unat a mod 4 * 16 + unat b div 16),
      b64 (unat b mod 16 * 4 + unat c div 64),
      b64 (unat c mod 64)] @ toString_base64 rest"
| "toString_base64 [a, b] =
     [b64 (unat a div 4),
      b64 (unat a mod 4 * 16 + unat b div 16),
      b64 (unat b mod 16 * 4),
      CHR ''='']"
| "toString_base64 [a] =
     [b64 (unat a div 4),
      b64 (unat a mod 4 * 16),
      CHR ''='', CHR ''='']"
| "toString_base64 [] = []"

text \<open>
  The decoder accepts the standard and the URL-safe alphabet and skips every
  other character (padding, white space, anything else).
\<close>

definition unbase64 :: "char \<Rightarrow> nat option" where
  "unbase64 c =
     (let n = (of_char c :: nat) in
      if 65 \<le> n \<and> n \<le> 90 then Some (n - 65)
      else if 97 \<le> n \<and> n \<le> 122 then Some (n - 71)
      else if 48 \<le> n \<and> n \<le> 57 then Some (n + 4)
      else if n = 43 \<or> n = 45 then Some 62
      else if n = 47 \<or> n = 95 then Some 63
      else None)"

fun decode_sextets :: "nat list \<Rightarrow> buffer" where
  "decode_sextets (a # b # c # d # rest) =
     of_nat (a * 4 + b div 16) #
     of_nat (b mod 16 * 16 + c div 4) #
     of_nat (c mod 4 * 64 + d) # decode_sextets rest"
| "decode_sextets [a, b, c] =
     [of_nat (a * 4 + b div 16), of_nat (b mod 16 * 16 + c div 4)]"
| "decode_sextets [a, b] = [of_nat (a * 4 + b div 16)]"
| "decode_sextets [a] = []"
| "decode_sextets [] = []"

definition from_base64 :: "string \<Rightarrow> buffer" where
  "from_base64 s = decode_sextets (List.map_filter unbase64 s)"

subsection \<open>UTF-8\<close>

text \<open>
  Encoding a string of code units below 256: one byte below 128, two bytes
  from 128 on.
\<close>

definition utf8_char :: "char \<Rightarrow> buffer" where
  "utf8_char c =
     (let n = (of_char c :: nat) in
      if n < 128 then [of_nat n]
      else [of_nat (192 + n div 64), of_nat (128 + n mod 64)])"

definition utf8_encode :: "string \<Rightarrow> buffer" where
  "utf8_encode s = concat (map utf8_char s)"

text \<open>
  Decoding: bytes that are all below 128 decode to the characters with the same
  codes. Any other input involves multi-byte sequences and replacement
  characters; that part of the decoder is the parameter \<open>other\<close>.
\<close>

definition utf8_decode :: "(buffer \<Rightarrow> string) \<Rightarrow> buffer \<Rightarrow> string" where
  "utf8_decode other bs =
     (if list_all (\<lambda>b. unat b < 128) bs
      then map (\<lambda>b. char_of (unat b)) bs
      else other bs)"

subsection \<open>\<open>JSON.stringify\<close> on strings and integers\<close>

definition json_escape :: "char \<Rightarrow> string" where
  "json_escape c =
     (let n = (of_char c :: nat) in
      if n = 34 then [CHR 0x5C, CHR 0x22]
      else if n = 92 then [CHR 0x5C, CHR 0x5C]
      else if n = 8 then [CHR 0x5C, CHR ''b'']
      else if n = 12 then [CHR 0x5C, CHR ''f'']
      else if n = 10 then [CHR 0x5C, CHR ''n'']
      else if n = 13 then [CHR 0x5C, CHR ''r'']
      else if n = 9 then [CHR 0x5C, CHR ''t'']
      else if n < 32 then
        [CHR 0x5C, CHR ''u'', CHR ''0'', CHR ''0'', hex_digits ! (n div 16), hex_digits ! (n mod 16)]
      else [c])"

definition json_string :: "string \<Rightarrow> string" where
  "json_string s = [CHR 0x22] @ concat (map json_escape s) @ [CHR 0x22]"

function json_number :: "nat \<Rightarrow> string" where
  "json_number n =
     (if n < 10 then [hex_digits ! n]
      else json_number (n div 10) @ [hex_digits ! (n mod 10)])"
  by pat_completeness auto
termination
  by (relation "measure id") auto

declare json_number.simps [simp del]

section \<open>The primitives of the runtime\<close>

text \<open>
  Node's \<open>crypto\<close> module and its UTF-8 decoder are outside the repository.
  What the code uses of them is a field of a record, so every definition and
  theorem below holds for whatever functions the runtime supplies.

  \<^item> \<open>pbkdf2_rounds\<close>: the iterated HMAC of PBKDF2 (RFC 8018), applied to the
    HMAC key block, the salt, the iteration count and the key length.
  \<^item> \<open>sha512\<close>: the digest function.
  \<^item> \<open>cipher_seal alg key aad data\<close>: the calls
    \<open>createCipher(alg, key)\<close>, \<open>setAAD(aad)\<close>, \<open>update(data)\<close>, \<open>final()\<close>,
    \<open>getAuthTag()\<close>; the result is the ciphertext and the tag, or the message
    of the exception raised by one of the calls.
  \<^item> \<open>decipher_open alg key tag aad data\<close>: the calls
    \<open>createDecipher(alg, key)\<close>, \<open>setAuthTag(tag)\<close>, \<open>setAAD(aad)\<close>,
    \<open>update(data)\<close>, \<open>final()\<close>; the result is the plaintext, or the message of
    the exception raised (\<open>final\<close> raises when the tag does not authenticate).
  \<^item> \<open>utf8_other\<close>: the UTF-8 decoder on input that is not pure ASCII.
\<close>

record runtime =
  pbkdf2_rounds :: "buffer \<Rightarrow> buffer \<Rightarrow> nat \<Rightarrow> nat \<Rightarrow> buffer"
  sha512 :: "buffer \<Rightarrow> buffer"
  cipher_seal :: "string \<Rightarrow> buffer \<Rightarrow> buffer \<Rightarrow> buffer \<Rightarrow> string + buffer \<times> buffer"
  decipher_open :: "string \<Rightarrow> buffer \<Rightarrow> buffer \<Rightarrow> buffer \<Rightarrow> buffer \<Rightarrow> string + buffer"
  utf8_other :: "buffer \<Rightarrow> string"

datatype error = Error string | RangeError string

fun message :: "error \<Rightarrow> string" where
  "message (Error m) = m"
| "message (RangeError m) = m"

text \<open>
  \<open>crypto.pbkdf2(password, salt, iterations, keylen, 'sha512')\<close> is PBKDF2 with
  HMAC-SHA-512. It rejects an iteration count or a key length outside the
  32-bit range it accepts; neither the password nor the salt is checked for
  length or content.

  HMAC (RFC 2104) first brings its key, here the UTF-8 bytes of the password,
  to the 128-byte block of SHA-512: a longer key is replaced by its digest, and
  the key is then filled with zero bytes on the right. The password enters the
  derivation only through this block.
\<close>

definition hmac_key :: "runtime \<Rightarrow> buffer \<Rightarrow> buffer" where
  "hmac_key cr k =
     (let k' = (if 128 < length k then sha512 cr k else k)
      in k' @ replicate (128 - length k') 0)"

definition pbkdf2 :: "runtime \<Rightarrow> string \<Rightarrow> buffer \<Rightarrow> nat \<Rightarrow> nat \<Rightarrow> error + buffer" where
  \<open>pbkdf2 cr password salt_bytes iters keylen =
     (if iters < 1 \<or> 2147483647 < iters
      then Inl (RangeError (''The value of "iterations" is out of range. '' @
                  ''It must be >= 1 && <= 2147483647. Received '' @ json_number iters))
      else if 2147483647 < keylen
      then Inl (RangeError (''The value of "keylen" is out of range. '' @
                  ''It must be >= 0 && <= 2147483647. Received '' @ json_number keylen))
      else Inr (pbkdf2_rounds cr (hmac_key cr (utf8_encode password)) salt_bytes iters keylen))\<close>

text \<open>
  \<open>crypto.timingSafeEqual(a, b)\<close> raises a \<open>RangeError\<close> when the two buffers
  differ in length, and compares them otherwise.
\<close>

definition timingSafeEqual :: "buffer \<Rightarrow> buffer \<Rightarrow> error + bool" where
  "timingSafeEqual a b =
     (if length a \<noteq> length b
      then Inl (RangeError ''Input buffers must have the same byte length'')
      else Inr (a = b))"

section \<open>The encryption class (\<open>utils/encryption.js\<close>)\<close>

definition this_algorithm :: string where "this_algorithm = ''aes-256-gcm''"
definition this_keyLength :: nat where "this_keyLength = 32"
definition this_ivLength :: nat where "this_ivLength = 16"
definition this_saltLength :: nat where "this_saltLength = 32"
definition this_tagLength :: nat where "this_tagLength = 16"
definition this_iterations :: nat where "this_iterations = 100000"

record metadata =
  salt :: string
  iv :: string
  tag :: string
  algorithm :: string
  iterations :: nat
  version :: string

record encryption_result =
  encrypted :: string
  metadata :: metadata
  integrity :: string

record wrapper =
  w_id :: string
  w_filename :: string
  w_originalSize :: nat
  w_encryptedSize :: nat
  w_timestamp :: nat
  w_metadata :: metadata
  w_integrity :: string
  w_version :: string

text \<open>\<open>JSON.stringify(metadata)\<close>: the keys in insertion order.\<close>

definition JSON_stringify :: "metadata \<Rightarrow> string" where
  \<open>JSON_stringify m =
     ''{"salt":'' @ json_string (salt m) @
     '',"iv":'' @ json_string (iv m) @
     '',"tag":'' @ json_string (tag m) @
     '',"algorithm":'' @ json_string (algorithm m) @
     '',"iterations":'' @ json_number (iterations m) @
     '',"version":'' @ json_string (version m) @ ''}''\<close>

definition deriveKey :: "runtime \<Rightarrow> string \<Rightarrow> buffer \<Rightarrow> error + buffer" where
  "deriveKey cr password salt_bytes =
     pbkdf2 cr password salt_bytes this_iterations this_keyLength"

definition generateIntegrityHash :: "runtime \<Rightarrow> string \<Rightarrow> metadata \<Rightarrow> string" where
  "generateIntegrityHash cr encryptedData m =
     (let dataToHash = encryptedData @ JSON_stringify m
      in toString_hex (sha512 cr (utf8_encode dataToHash)))"

definition verifyIntegrity :: "runtime \<Rightarrow> string \<Rightarrow> metadata \<Rightarrow> string \<Rightarrow> error + bool" where
  "verifyIntegrity cr encryptedData m expectedHash =
     (let calculatedHash = generateIntegrityHash cr encryptedData m
      in timingSafeEqual (from_hex calculatedHash) (from_hex expectedHash))"

definition aad :: buffer where
  "aad = utf8_encode ''CloudEncryptionApp''"

text \<open>
  \<open>encrypt\<close> draws a salt and an IV from the random source; the two values
  drawn are the arguments \<open>salt_bytes\<close> and \<open>iv_bytes\<close>. The IV goes into the
  metadata only: the cipher is created from the algorithm name and the key.
\<close>

definition encrypt :: "runtime \<Rightarrow> buffer \<Rightarrow> buffer \<Rightarrow> string \<Rightarrow> string \<Rightarrow> error + encryption_result" where
  "encrypt cr salt_bytes iv_bytes data password =
     (case deriveKey cr password salt_bytes of
        Inl e \<Rightarrow> Inl (Error (''Encryption failed: '' @ message e))
      | Inr key \<Rightarrow>
          (case cipher_seal cr this_algorithm key aad (utf8_encode data) of
             Inl msg \<Rightarrow> Inl (Error (''Encryption failed: '' @ msg))
           | Inr (ct, tag_bytes) \<Rightarrow>
               (let enc = toString_hex ct;
                    m = \<lparr>salt = toString_hex salt_bytes,
                         iv = toString_hex iv_bytes,
                         tag = toString_hex tag_bytes,
                         algorithm = this_algorithm,
                         iterations = this_iterations,
                         version = ''1.0.0''\<rparr>
                in Inr \<lparr>encrypted = enc, metadata = m,
                        integrity = generateIntegrityHash cr enc m\<rparr>)))"

text \<open>
  \<open>decrypt\<close> reads the salt, the IV and the tag back from the metadata. The IV
  read is not used again.
\<close>

definition decrypt :: "runtime \<Rightarrow> string \<Rightarrow> metadata \<Rightarrow> string \<Rightarrow> error + string" where
  "decrypt cr encryptedData m password =
     (let salt_bytes = from_hex (salt m);
          iv_bytes = from_hex (iv m);
          tag_bytes = from_hex (tag m)
      in case deriveKey cr password salt_bytes of
           Inl e \<Rightarrow> Inl (Error (''Decryption failed: '' @ message e))
         | Inr key \<Rightarrow>
             (case decipher_open cr this_algorithm key tag_bytes aad (from_hex encryptedData) of
                Inl msg \<Rightarrow> Inl (Error (''Decryption failed: '' @ msg))
              | Inr pt \<Rightarrow> Inr (utf8_decode (utf8_other cr) pt)))"

definition encryptFile :: "runtime \<Rightarrow> buffer \<Rightarrow> buffer \<Rightarrow> buffer \<Rightarrow> string \<Rightarrow> error + encryption_result" where
  "encryptFile cr salt_bytes iv_bytes fileBuffer password =
     (let data = toString_base64 fileBuffer
      in encrypt cr salt_bytes iv_bytes data password)"

definition decryptFile :: "runtime \<Rightarrow> string \<Rightarrow> metadata \<Rightarrow> string \<Rightarrow> error + buffer" where
  "decryptFile cr encryptedData m password =
     (case decrypt cr encryptedData m password of
        Inl e \<Rightarrow> Inl e
      | Inr decrypted \<Rightarrow> Inr (from_base64 decrypted))"

text \<open>
  What \<open>createSecureFileWrapper\<close> takes from outside: the clock
  (\<open>Date.now()\<close>), the identifier (\<open>crypto.randomUUID()\<close>) and the random
  bytes of the salt and the IV.
\<close>

record draws =
  now :: nat
  uuid :: string
  salt_drawn :: buffer
  iv_drawn :: buffer

definition createSecureFileWrapper ::
  "runtime \<Rightarrow> draws \<Rightarrow> buffer \<Rightarrow> string \<Rightarrow> string \<Rightarrow> error + wrapper \<times> string" where
  "createSecureFileWrapper cr d fileBuffer password filename =
     (let timestamp = now d; fileId = uuid d in
      case encryptFile cr (salt_drawn d) (iv_drawn d) fileBuffer password of
        Inl e \<Rightarrow> Inl e
      | Inr encryptionResult \<Rightarrow>
          Inr (\<lparr>w_id = fileId,
                w_filename = filename,
                w_originalSize = length fileBuffer,
                w_encryptedSize = length (encrypted encryptionResult),
                w_timestamp = timestamp,
                w_metadata = metadata encryptionResult,
                w_integrity = integrity encryptionResult,
                w_version = ''1.0.0''\<rparr>,
               encrypted encryptionResult))"

section \<open>The download route (\<open>POST /download\<close>)\<close>

text \<open>
  A response is either a status with a JSON body \<open>{error: ...}\<close>, or the
  decrypted file sent with its \<open>Content-Disposition\<close> file name and its
  \<open>Content-Length\<close>. The second component of a handler's result is what it
  wrote with \<open>console.error\<close>.
\<close>

datatype response = Json nat string | Send string nat buffer

text \<open>\<open>s.includes(t)\<close> and \<open>s.startsWith(p)\<close>.\<close>

fun str_includes :: "string \<Rightarrow> string \<Rightarrow> bool" where
  "str_includes [] t = (t = [])"
| "str_includes (c # s) t = (prefix t (c # s) \<or> str_includes s t)"

definition startsWith :: "string \<Rightarrow> string \<Rightarrow> bool" where
  "startsWith s p = prefix p s"

definition download_catch :: "error \<Rightarrow> response \<times> error list" where
  "download_catch e =
     (if str_includes (message e) ''Decryption failed''
      then (Json 400 ''Invalid password or corrupted file'', [e])
      else (Json 500 ''Failed to download file'', [e]))"

text \<open>
  The handler from the integrity check on: the wrapper has been read from
  \<open>metadata/<id>.json\<close> and parsed, the ciphertext has been read from
  \<open>encrypted/<id>\<close>.
\<close>

definition post_download :: "runtime \<Rightarrow> wrapper \<Rightarrow> string \<Rightarrow> string \<Rightarrow> response \<times> error list" where
  "post_download cr w encryptedData password =
     (case verifyIntegrity cr encryptedData (w_metadata w) (w_integrity w) of
        Inl e \<Rightarrow> download_catch e
      | Inr ok \<Rightarrow>
          if \<not> ok then (Json 400 ''File integrity check failed'', [])
          else
            (case decryptFile cr encryptedData (w_metadata w) password of
               Inl e \<Rightarrow> download_catch e
             | Inr decryptedBuffer \<Rightarrow>
                 (Send (w_filename w) (length decryptedBuffer) decryptedBuffer, [])))"

section \<open>The blob store (\<open>utils/storage.js\<close>)\<close>

text \<open>
  The store is the list of its objects, key and content, in the order in which
  the backend lists them. The local backend keeps one file per key under
  \<open>localStoragePath\<close>; the S3 backend keeps one object per key in the bucket.
\<close>

datatype storageType = S3 | Local

record cloudStorage =
  storageType :: storageType
  localStoragePath :: string
  objects :: "(string \<times> string) list"

definition keys_of :: "cloudStorage \<Rightarrow> string list" where
  "keys_of st = map fst (objects st)"

definition remove_key :: "cloudStorage \<Rightarrow> string \<Rightarrow> cloudStorage" where
  "remove_key st key = st\<lparr>objects := filter (\<lambda>(k, v). k \<noteq> key) (objects st)\<rparr>"

text \<open>\<open>deleteObject\<close> acknowledges whether or not the key exists.\<close>

definition deleteFromS3 :: "cloudStorage \<Rightarrow> string \<Rightarrow> (error + bool) \<times> cloudStorage" where
  "deleteFromS3 st key = (Inr True, remove_key st key)"

text \<open>
  \<open>fs.unlink\<close> rejects with \<open>ENOENT\<close> when there is no file at the path.
  (\<open>path.join\<close> is written as plain concatenation; it also normalises the
  path, which matters to the text of the message only.)
\<close>

definition deleteFromLocal :: "cloudStorage \<Rightarrow> string \<Rightarrow> (error + bool) \<times> cloudStorage" where
  "deleteFromLocal st key =
     (let filePath = localStoragePath st @ ''/'' @ key in
      if key \<in> set (keys_of st) then (Inr True, remove_key st key)
      else (Inl (Error (''ENOENT: no such file or directory, unlink '' @
                        [CHR 0x27] @ filePath @ [CHR 0x27])), st))"

definition deleteFile :: "cloudStorage \<Rightarrow> string \<Rightarrow> (error + bool) \<times> cloudStorage" where
  "deleteFile st key =
     (case (if storageType st = S3 then deleteFromS3 st key else deleteFromLocal st key) of
        (Inl e, st') \<Rightarrow> (Inl (Error (''Delete failed: '' @ message e)), st')
      | (Inr r, st') \<Rightarrow> (Inr r, st'))"

text \<open>
  \<open>listObjectsV2\<close> answers with one page of at most 1000 keys, and
  \<open>listFromS3\<close> reads that page only. \<open>readdir\<close> with \<open>recursive\<close> lists
  every entry below the directory, the directories \<open>encrypted\<close> and
  \<open>metadata\<close> (made when the store is set up) among them.
\<close>

definition listFromS3 :: "cloudStorage \<Rightarrow> string \<Rightarrow> string list" where
  "listFromS3 st pfx = take 1000 (filter (\<lambda>k. startsWith k pfx) (keys_of st))"

definition listFromLocal :: "cloudStorage \<Rightarrow> string \<Rightarrow> string list" where
  "listFromLocal st pfx =
     (if pfx = [] then [''encrypted'', ''metadata''] @ keys_of st
      else filter (\<lambda>k. startsWith k pfx) (keys_of st))"

definition listFiles :: "cloudStorage \<Rightarrow> string \<Rightarrow> string list" where
  "listFiles st pfx =
     (if storageType st = S3 then listFromS3 st pfx else listFromLocal st pfx)"

section \<open>The reconciliation sweep (\<open>POST /cleanup\<close>)\<close>

text \<open>\<open>s.replace(pat, rep)\<close> with a string pattern: the first occurrence only.\<close>

fun str_replace :: "string \<Rightarrow> string \<Rightarrow> string \<Rightarrow> string" where
  "str_replace [] pat rep = (if pat = [] then rep else [])"
| "str_replace (c # s) pat rep =
     (if prefix pat (c # s) then rep @ drop (length pat) (c # s)
      else c # str_replace s pat rep)"

definition orphaned_encrypted :: "string list \<Rightarrow> string list \<Rightarrow> string list" where
  "orphaned_encrypted encryptedFiles metadataFiles =
     filter (\<lambda>encryptedFile.
        let fileId = str_replace encryptedFile ''encrypted/'' [];
            metadataFile = ''metadata/'' @ fileId @ ''.json''
        in metadataFile \<notin> set metadataFiles) encryptedFiles"

definition orphaned_metadata :: "string list \<Rightarrow> string list \<Rightarrow> string list" where
  "orphaned_metadata encryptedFiles metadataFiles =
     filter (\<lambda>metadataFile.
        let fileId = str_replace (str_replace metadataFile ''metadata/'' []) ''.json'' [];
            encryptedFile = ''encrypted/'' @ fileId
        in encryptedFile \<notin> set encryptedFiles) metadataFiles"

definition find_orphans :: "string list \<Rightarrow> string list" where
  "find_orphans files =
     (let encryptedFiles = filter (\<lambda>file. startsWith file ''encrypted/'') files;
          metadataFiles = filter (\<lambda>file. startsWith file ''metadata/'') files
      in orphaned_encrypted encryptedFiles metadataFiles @
         orphaned_metadata encryptedFiles metadataFiles)"

text \<open>
  The deletion loop: a file whose deletion fails is logged and left out of
  \<open>cleanedFiles\<close>; the loop goes on.
\<close>

record sweep =
  store :: cloudStorage
  cleanedFiles :: "string list"
  logged :: "(string \<times> error) list"

fun delete_orphans :: "cloudStorage \<Rightarrow> string list \<Rightarrow> sweep" where
  "delete_orphans st [] = \<lparr>store = st, cleanedFiles = [], logged = []\<rparr>"
| "delete_orphans st (orphanedFile # others) =
     (case deleteFile st orphanedFile of
        (Inr r, st') \<Rightarrow>
          (let s = delete_orphans st' others
           in s\<lparr>cleanedFiles := orphanedFile # cleanedFiles s\<rparr>)
      | (Inl e, st') \<Rightarrow>
          (let s = delete_orphans st' others
           in s\<lparr>logged := (orphanedFile, e) # logged s\<rparr>))"

record cleanup_response =
  success :: bool
  orphanedFilesFound :: nat
  cleanedCount :: nat
  orphanedFiles :: "string list"
  cleaned :: "string list"

definition cleanup_report :: "string list \<Rightarrow> sweep \<Rightarrow> cleanup_response" where
  "cleanup_report orphans s =
     \<lparr>success = True,
      orphanedFilesFound = length orphans,
      cleanedCount = length (cleanedFiles s),
      orphanedFiles = orphans,
      cleaned = cleanedFiles s\<rparr>"

text \<open>
  The handler. Listing does not fail in this model, so the handler's own
  \<open>catch\<close> (status 500) has no branch here.
\<close>

definition post_cleanup :: "cloudStorage \<Rightarrow> cleanup_response \<times> sweep" where
  "post_cleanup st =
     (let files = listFiles st [];
          orphans = find_orphans files;
          s = delete_orphans st orphans
      in (cleanup_report orphans s, s))"

section \<open>The store as the specification sees it\<close>

text \<open>
  The identifiers that have a ciphertext blob, the identifiers that have a
  metadata blob, and the keys of the orphans: the blobs of the identifiers in
  the symmetric difference. A store has well-formed keys when every key under
  \<open>metadata/\<close> is \<open>metadata/<id>.json\<close> for an identifier without a dot (the
  identifiers are UUIDs). The listing is whole on the local backend, and on
  the S3 backend when the bucket fits into one page.
\<close>

definition ciphertext_ids :: "cloudStorage \<Rightarrow> string set" where
  "ciphertext_ids st = {i. ''encrypted/'' @ i \<in> set (keys_of st)}"

definition metadata_ids :: "cloudStorage \<Rightarrow> string set" where
  "metadata_ids st = {i. ''metadata/'' @ i @ ''.json'' \<in> set (keys_of st)}"

definition orphan_keys :: "cloudStorage \<Rightarrow> string set" where
  "orphan_keys st =
     (\<lambda>i. ''encrypted/'' @ i) ` (ciphertext_ids st - metadata_ids st) \<union>
     (\<lambda>i. ''metadata/'' @ i @ ''.json'') ` (metadata_ids st - ciphertext_ids st)"

definition wellformed_keys :: "cloudStorage \<Rightarrow> bool" where
  "wellformed_keys st =
     (\<forall>k \<in> set (keys_of st).
        startsWith k ''metadata/'' \<longrightarrow>
          (\<exists>i. k = ''metadata/'' @ i @ ''.json'' \<and> CHR ''.'' \<notin> set i))"

definition listed_whole :: "cloudStorage \<Rightarrow> bool" where
  "listed_whole st = (storageType st = Local \<or> length (objects st) \<le> 1000)"

section \<open>What the theorems assume of the primitives\<close>




definition digest_64 :: "runtime \<Rightarrow> bool" where
  "digest_64 cr = (\<forall>x. length (sha512 cr x) = 64)"

definition ascii :: "string \<Rightarrow> bool" where
  "ascii s = list_all (\<lambda>c. (of_char c :: nat) < 128) s"




text \<open>The key \<open>deriveKey\<close> returns, written out.\<close>

definition derived_key :: "runtime \<Rightarrow> string \<Rightarrow> buffer \<Rightarrow> buffer" where
  "derived_key cr password salt_bytes =
     pbkdf2_rounds cr (hmac_key cr (utf8_encode password)) salt_bytes 100000 32"

section \<open>Stand-ins for the primitives, for the concrete examples\<close>

text \<open>
  A runtime small enough to compute with. The cipher adds one to every byte and
  uses the key as the tag; the digest is 63 zero bytes followed by the sum of
  the input bytes; the key derivation keeps the start of the key block and the
  salt.
\<close>

definition toy_seal :: "string \<Rightarrow> buffer \<Rightarrow> buffer \<Rightarrow> buffer \<Rightarrow> string + buffer \<times> buffer" where
  "toy_seal alg key a data = Inr (map (\<lambda>b. b + 1) data, key)"

definition toy_open :: "string \<Rightarrow> buffer \<Rightarrow> buffer \<Rightarrow> buffer \<Rightarrow> buffer \<Rightarrow> string + buffer" where
  "toy_open alg key tag_bytes a data =
     (if tag_bytes = key then Inr (map (\<lambda>b. b - 1) data)
      else Inl ''Unsupported state or unable to authenticate data'')"

definition toy_sha512 :: "buffer \<Rightarrow> buffer" where
  "toy_sha512 bs = replicate 63 0 @ [sum_list bs]"

definition toy_rounds :: "buffer \<Rightarrow> buffer \<Rightarrow> nat \<Rightarrow> nat \<Rightarrow> buffer" where
  "toy_rounds block salt_bytes iters keylen =
     take keylen (take 16 block @ salt_bytes @ replicate keylen 0)"

definition toy_runtime :: runtime where
  "toy_runtime =
     \<lparr>pbkdf2_rounds = toy_rounds,
      sha512 = toy_sha512,
      cipher_seal = toy_seal,
      decipher_open = toy_open,
      utf8_other = (\<lambda>bs. [])\<rparr>"

definition toy_draws :: draws where
  "toy_draws =
     \<lparr>now = 1700000000000, uuid = ''3f2b8c1e-0a4d-4e6f-9b7a-5c1d2e3f4a5b'',
      salt_drawn = [7, 9], iv_drawn = [3, 5]\<rparr>"

text \<open>
  The running example: the file \<open>[1, 2, 3]\<close> stored under the password
  \<open>password1\<close> as \<open>a.txt\<close>.
\<close>

definition toy_created :: "wrapper \<times> string" where
  "toy_created =
     projr (createSecureFileWrapper toy_runtime toy_draws [1, 2, 3] ''password1'' ''a.txt'')"

definition toy_wrapper :: wrapper where
  "toy_wrapper = fst toy_created"

definition toy_ciphertext :: string where
  "toy_ciphertext = snd toy_created"

text \<open>
  A local store for the examples: one complete pair, one ciphertext without
  metadata, one metadata blob without ciphertext.
\<close>

definition toy_store :: cloudStorage where
  "toy_store =
     \<lparr>storageType = Local, localStoragePath = ''storage'',
      objects = [(''encrypted/a1'', ''4252''), (''metadata/a1.json'', ''{}''),
                 (''encrypted/b2'', ''4a45''), (''metadata/c3.json'', ''{}'')]\<rparr>"

text \<open>
  An S3 bucket with 1001 objects, in key order: the ciphertext blobs of 1000
  identifiers and the metadata blob of the first of them.
\<close>

definition uuid_n :: "nat \<Rightarrow> string" where
  "uuid_n n =
     ''00000000-0000-4000-8000-000000000'' @
     [hex_digits ! (n div 100), hex_digits ! (n div 10 mod 10), hex_digits ! (n mod 10)]"

definition big_bucket :: cloudStorage where
  "big_bucket =
     \<lparr>storageType = S3, localStoragePath = [],
      objects = map (\<lambda>n. (''encrypted/'' @ uuid_n n, ''4252'')) [0..<1000] @
                [(''metadata/'' @ uuid_n 0 @ ''.json'', ''{}'')]\<rparr>"

section \<open>The encodings invert each other\<close>

lemma unat_byte_less: "unat (b::byte) < 256"
  using unsigned_less[of b, where 'a=nat] by simp


lemma upt16: "[0..<16] = [0,1,2,3,4,5,6,7,8,9,10,11,12,13,14,15]"
  by (simp add: upt_eq_Cons_conv)

lemma unhex_hex_digits_all:
  "list_all (\<lambda>n. unhex (hex_digits ! n) = Some n) [0,1,2,3,4,5,6,7,8,9,10,11,12,13,14,15]"
  by (simp add: unhex_def hex_digits_def)

lemma unhex_hex_digit: "n < 16 \<Longrightarrow> unhex (hex_digits ! n) = Some n"
proof -
  assume "n < 16"
  then have "n \<in> set [0..<16]" by simp
  then show ?thesis
    using unhex_hex_digits_all unfolding upt16 list_all_iff by blast
qed

lemma from_hex_byte_hex: "from_hex (byte_hex b @ rest) = b # from_hex rest"
proof -
  have "unat b div 16 < 16" using unat_byte_less[of b] by simp
  moreover have "unat b mod 16 < 16" by simp
  ultimately show ?thesis
    by (simp add: byte_hex_def unhex_hex_digit)
qed

lemma from_hex_toString_hex: "from_hex (toString_hex bs) = bs"
  by (induction bs) (simp_all add: toString_hex_def from_hex_byte_hex)

lemma length_toString_hex: "length (toString_hex bs) = 2 * length bs"
  by (induction bs) (simp_all add: toString_hex_def byte_hex_def)















lemma ascii_append: "ascii (s @ t) = (ascii s \<and> ascii t)"
  by (simp add: ascii_def)


lemma hex_digit_ascii: "n < 16 \<Longrightarrow> (of_char (hex_digits ! n) :: nat) < 128"
  using unhex_hex_digit[of n] by (auto simp: unhex_def Let_def split: if_splits)

lemma ascii_toString_hex: "ascii (toString_hex bs)"
proof (induction bs)
  case Nil
  show ?case by (simp add: toString_hex_def ascii_def)
next
  case (Cons b bs)
  have "unat b div 16 < 16" using unat_byte_less[of b] by simp
  moreover have "unat b mod 16 < 16" by simp
  ultimately show ?case using Cons
    by (simp add: toString_hex_def ascii_def byte_hex_def hex_digit_ascii)
qed

lemma utf8_encode_ascii: "ascii s \<Longrightarrow> utf8_encode s = map (\<lambda>c. of_nat (of_char c)) s"
  by (induction s) (simp_all add: ascii_def utf8_encode_def utf8_char_def)

lemma length_utf8_encode_ascii: "ascii s \<Longrightarrow> length (utf8_encode s) = length s"
  by (simp add: utf8_encode_ascii)


section \<open>Key derivation, encryption and decryption\<close>

lemma deriveKey_Inr: "deriveKey cr password salt_bytes = Inr (derived_key cr password salt_bytes)"
  by (simp add: deriveKey_def pbkdf2_def derived_key_def this_iterations_def this_keyLength_def)


lemma verifyIntegrity_own_hash:
  "verifyIntegrity cr enc m (generateIntegrityHash cr enc m) = Inr True"
  by (simp add: verifyIntegrity_def timingSafeEqual_def Let_def)

lemma decrypt_eq:
  "decrypt cr enc m password =
     (case decipher_open cr this_algorithm (derived_key cr password (from_hex (salt m)))
             (from_hex (tag m)) aad (from_hex enc) of
        Inl msg \<Rightarrow> Inl (Error (''Decryption failed: '' @ msg))
      | Inr pt \<Rightarrow> Inr (utf8_decode (utf8_other cr) pt))"
  by (simp add: decrypt_def deriveKey_Inr Let_def)

lemma create_eq:
  "createSecureFileWrapper cr d fileBuffer password filename =
     (case cipher_seal cr this_algorithm (derived_key cr password (salt_drawn d)) aad
             (utf8_encode (toString_base64 fileBuffer)) of
        Inl msg \<Rightarrow> Inl (Error (''Encryption failed: '' @ msg))
      | Inr (ct, tg) \<Rightarrow>
          Inr (\<lparr>w_id = uuid d,
                w_filename = filename,
                w_originalSize = length fileBuffer,
                w_encryptedSize = length (toString_hex ct),
                w_timestamp = now d,
                w_metadata =
                  \<lparr>salt = toString_hex (salt_drawn d), iv = toString_hex (iv_drawn d),
                   tag = toString_hex tg, algorithm = this_algorithm,
                   iterations = this_iterations, version = ''1.0.0''\<rparr>,
                w_integrity =
                  generateIntegrityHash cr (toString_hex ct)
                    \<lparr>salt = toString_hex (salt_drawn d), iv = toString_hex (iv_drawn d),
                     tag = toString_hex tg, algorithm = this_algorithm,
                     iterations = this_iterations, version = ''1.0.0''\<rparr>,
                w_version = ''1.0.0''\<rparr>,
               toString_hex ct))"
  by (simp add: createSecureFileWrapper_def encryptFile_def encrypt_def deriveKey_Inr Let_def
           split: sum.splits prod.splits)

lemma create_InrD:
  assumes "createSecureFileWrapper cr d fileBuffer password filename = Inr (w, enc)"
  shows "\<exists>ct tg.
           cipher_seal cr this_algorithm (derived_key cr password (salt_drawn d)) aad
             (utf8_encode (toString_base64 fileBuffer)) = Inr (ct, tg) \<and>
           enc = toString_hex ct \<and>
           w_filename w = filename \<and>
           w_originalSize w = length fileBuffer \<and>
           w_encryptedSize w = length enc \<and>
           w_version w = ''1.0.0'' \<and>
           salt (w_metadata w) = toString_hex (salt_drawn d) \<and>
           tag (w_metadata w) = toString_hex tg \<and>
           w_integrity w = generateIntegrityHash cr enc (w_metadata w)"
  using assms unfolding create_eq
  by (auto split: sum.splits prod.splits)


section \<open>The stand-ins satisfy the assumptions\<close>


lemma toy_digest_64: "digest_64 toy_runtime"
  by (simp add: digest_64_def toy_runtime_def toy_sha512_def)

lemma toy_create:
  "createSecureFileWrapper toy_runtime toy_draws [1, 2, 3] ''password1'' ''a.txt'' =
     Inr (toy_wrapper, toy_ciphertext)"
  by (simp add: toy_wrapper_def toy_ciphertext_def toy_created_def create_eq
        toy_runtime_def toy_seal_def)

lemma toy_ciphertext_eq: "toy_ciphertext = ''42524a45''"
  by (simp add: toy_ciphertext_def toy_created_def create_eq toy_runtime_def toy_seal_def
        utf8_encode_def utf8_char_def b64_def base64_chars_def
        toString_hex_def byte_hex_def hex_digits_def)

section \<open>Round trip\<close>



section \<open>The sizes and the version a wrapper records\<close>

text \<open>
  C6. Every wrapper that \<open>createSecureFileWrapper\<close> returns records the number
  of bytes of the plaintext as \<open>originalSize\<close>, the number of bytes of the
  ciphertext it returns as \<open>encryptedSize\<close>, and the version \<open>1.0.0\<close>. The
  ciphertext returned and stored is hexadecimal text, one byte per character:
  two characters for every byte the cipher put out.
\<close>

theorem wrapper_sizes_and_version:
  assumes "createSecureFileWrapper cr d P W name = Inr (w, enc)"
  shows "w_originalSize w = length P \<and>
         w_encryptedSize w = length (utf8_encode enc) \<and>
         w_version w = ''1.0.0'' \<and>
         (\<exists>ct. enc = toString_hex ct \<and> w_encryptedSize w = 2 * length ct)"
proof -
  from create_InrD[OF assms] obtain ct where
    "enc = toString_hex ct" "w_originalSize w = length P"
    "w_encryptedSize w = length enc" "w_version w = ''1.0.0''"
    by blast
  then show ?thesis
    by (auto simp: length_utf8_encode_ascii ascii_toString_hex length_toString_hex)
qed

theorem wrapper_sizes_and_version_witness:
  "createSecureFileWrapper toy_runtime toy_draws [1, 2, 3] ''password1'' ''a.txt'' =
     Inr (toy_wrapper, toy_ciphertext) \<and>
   w_originalSize toy_wrapper = length [1 :: byte, 2, 3] \<and>
   w_encryptedSize toy_wrapper = length (utf8_encode toy_ciphertext) \<and>
   w_version toy_wrapper = ''1.0.0'' \<and>
   (\<exists>ct. toy_ciphertext = toString_hex ct \<and> w_encryptedSize toy_wrapper = 2 * length ct)"
  using toy_create wrapper_sizes_and_version[OF toy_create]
  by blast

section \<open>The integrity check and the length of the expected digest\<close>

text \<open>
  C10. With a 64-byte digest, \<open>verifyIntegrity\<close> returns a boolean exactly when
  the hexadecimal decoding of \<open>expectedHash\<close> is 64 bytes long, and that boolean
  says whether it equals the digest; for every other length it raises the
  \<open>RangeError\<close> of \<open>timingSafeEqual\<close> instead of returning \<open>false\<close>.
\<close>

theorem verifyIntegrity_length:
  assumes "digest_64 cr"
  shows "verifyIntegrity cr enc m expectedHash =
           (if length (from_hex expectedHash) = 64
            then Inr (sha512 cr (utf8_encode (enc @ JSON_stringify m)) = from_hex expectedHash)
            else Inl (RangeError ''Input buffers must have the same byte length''))"
  using assms
  by (simp add: verifyIntegrity_def generateIntegrityHash_def timingSafeEqual_def Let_def
        from_hex_toString_hex digest_64_def)

theorem verifyIntegrity_length_witness:
  "digest_64 toy_runtime \<and>
   verifyIntegrity toy_runtime ''42524a45'' (w_metadata toy_wrapper) ''00ff'' =
     Inl (RangeError ''Input buffers must have the same byte length'') \<and>
   verifyIntegrity toy_runtime ''42524a45'' (w_metadata toy_wrapper)
       (toString_hex (replicate 64 255)) =
     Inr (sha512 toy_runtime (utf8_encode (''42524a45'' @ JSON_stringify (w_metadata toy_wrapper))) =
          replicate 64 255)"
  using toy_digest_64
    verifyIntegrity_length[OF toy_digest_64, of "''42524a45''" "w_metadata toy_wrapper" "''00ff''"]
    verifyIntegrity_length[OF toy_digest_64, of "''42524a45''" "w_metadata toy_wrapper"
      "toString_hex (replicate 64 255)"]
  by (simp add: from_hex_toString_hex unhex_def)

section \<open>The IV\<close>

text \<open>
  C2. The claim is that the IV drawn for a record is passed to the cipher on
  encryption and on decryption. In the code the cipher and the decipher are
  created from the algorithm name and the key alone: whatever IV is drawn, the
  ciphertext and the tag are the same, and \<open>decrypt\<close> returns the same result
  whatever IV the metadata holds.
\<close>

theorem iv_never_reaches_cipher:
  "map_sum id encrypted (encrypt cr s iv1 data W) = map_sum id encrypted (encrypt cr s iv2 data W) \<and>
   map_sum id (tag \<circ> metadata) (encrypt cr s iv1 data W) =
     map_sum id (tag \<circ> metadata) (encrypt cr s iv2 data W) \<and>
   decrypt cr enc (m\<lparr>iv := x\<rparr>) W = decrypt cr enc m W"
  by (simp add: encrypt_def decrypt_eq deriveKey_Inr Let_def split: sum.splits prod.splits)

section \<open>Key derivation and the salt\<close>

text \<open>
  C9 as stated fails: with an empty salt \<open>deriveKey\<close> returns a key.
\<close>

theorem deriveKey_empty_salt_counterexample:
  "\<not> isl (deriveKey toy_runtime ''password1'' [])"
  by (simp add: deriveKey_Inr)

text \<open>
  C9, amended. \<open>deriveKey\<close> checks neither the salt nor the password: for every
  password and every salt, of any length, it returns the key PBKDF2 derives
  from them with 100000 iterations and 32 bytes of output.
\<close>

theorem deriveKey_total:
  "deriveKey cr password salt_bytes =
     Inr (pbkdf2_rounds cr (hmac_key cr (utf8_encode password)) salt_bytes 100000 32)"
  by (simp add: deriveKey_def pbkdf2_def this_iterations_def this_keyLength_def)

section \<open>Opening a wrapper\<close>

lemma post_download_mismatch:
  assumes "digest_64 cr"
    and "length (from_hex (w_integrity w)) = 64"
    and "sha512 cr (utf8_encode (enc @ JSON_stringify (w_metadata w))) \<noteq> from_hex (w_integrity w)"
  shows "post_download cr w enc password = (Json 400 ''File integrity check failed'', [])"
  using assms
  by (simp add: post_download_def verifyIntegrity_def generateIntegrityHash_def
        timingSafeEqual_def Let_def from_hex_toString_hex digest_64_def)







lemma toy_sum_utf8_append:
  "sum_list (utf8_encode (s @ t)) = sum_list (utf8_encode s) + sum_list (utf8_encode t)"
  by (simp add: utf8_encode_def)

lemma toy_wrapper_integrity:
  "w_integrity toy_wrapper = generateIntegrityHash toy_runtime toy_ciphertext (w_metadata toy_wrapper)"
  using create_InrD[OF toy_create] by blast

lemma toy_digest_changes:
  "sha512 toy_runtime (utf8_encode (''42524a44'' @ JSON_stringify (w_metadata toy_wrapper))) \<noteq>
   sha512 toy_runtime (utf8_encode (toy_ciphertext @ JSON_stringify (w_metadata toy_wrapper)))"
  by (simp add: toy_ciphertext_eq toy_runtime_def toy_sha512_def toy_sum_utf8_append
        utf8_encode_def utf8_char_def)

lemma toy_keys_differ:
  "deriveKey toy_runtime ''password2'' (salt_drawn toy_draws) \<noteq>
   deriveKey toy_runtime ''password1'' (salt_drawn toy_draws)"
  by (simp add: deriveKey_Inr derived_key_def toy_runtime_def toy_rounds_def hmac_key_def
        utf8_encode_def utf8_char_def toy_draws_def)

section \<open>The input of the digest determines the ciphertext and the metadata\<close>






































section \<open>Tampering\<close>




section \<open>A wrong password\<close>




section \<open>What the caller is told when opening fails\<close>

lemma toy_tampered_download:
  "post_download toy_runtime toy_wrapper ''42524a44'' W =
     (Json 400 ''File integrity check failed'', [])"
proof -
  have h: "from_hex (w_integrity toy_wrapper) =
        sha512 toy_runtime (utf8_encode (toy_ciphertext @ JSON_stringify (w_metadata toy_wrapper)))"
    by (simp add: toy_wrapper_integrity generateIntegrityHash_def from_hex_toString_hex)
  show ?thesis
  proof (rule post_download_mismatch[OF toy_digest_64])
    show "length (from_hex (w_integrity toy_wrapper)) = 64"
      using toy_digest_64 by (simp add: h digest_64_def)
    show "sha512 toy_runtime (utf8_encode (''42524a44'' @ JSON_stringify (w_metadata toy_wrapper))) \<noteq>
          from_hex (w_integrity toy_wrapper)"
      using toy_digest_changes by (simp add: h)
  qed
qed

lemma toy_verify_tampered:
  "verifyIntegrity toy_runtime ''42524a44'' (w_metadata toy_wrapper) (w_integrity toy_wrapper) =
     Inr False"
proof -
  have h: "from_hex (w_integrity toy_wrapper) =
        sha512 toy_runtime (utf8_encode (toy_ciphertext @ JSON_stringify (w_metadata toy_wrapper)))"
    by (simp add: toy_wrapper_integrity generateIntegrityHash_def from_hex_toString_hex)
  have "length (from_hex (w_integrity toy_wrapper)) = 64"
    using toy_digest_64 by (simp add: h digest_64_def)
  moreover have "length (sha512 toy_runtime x) = 64" for x
    using toy_digest_64 by (simp add: digest_64_def)
  ultimately show ?thesis
    using toy_digest_changes
    by (simp add: verifyIntegrity_def generateIntegrityHash_def timingSafeEqual_def Let_def
          from_hex_toString_hex h)
qed

lemma toy_wrapper_fields:
  "salt (w_metadata toy_wrapper) = toString_hex (salt_drawn toy_draws)"
  "w_filename toy_wrapper = ''a.txt''"
  "\<exists>tg. cipher_seal toy_runtime this_algorithm
           (derived_key toy_runtime ''password1'' (salt_drawn toy_draws)) aad
           (utf8_encode (toString_base64 [1, 2, 3])) = Inr (from_hex toy_ciphertext, tg) \<and>
        tag (w_metadata toy_wrapper) = toString_hex tg"
proof -
  from create_InrD[OF toy_create] obtain ct tg where
    seal: "cipher_seal toy_runtime this_algorithm
           (derived_key toy_runtime ''password1'' (salt_drawn toy_draws)) aad
           (utf8_encode (toString_base64 [1, 2, 3])) = Inr (ct, tg)"
    and enc: "toy_ciphertext = toString_hex ct"
    and f: "w_filename toy_wrapper = ''a.txt''"
    and s: "salt (w_metadata toy_wrapper) = toString_hex (salt_drawn toy_draws)"
    and t: "tag (w_metadata toy_wrapper) = toString_hex tg"
    by blast
  show "salt (w_metadata toy_wrapper) = toString_hex (salt_drawn toy_draws)" by (rule s)
  show "w_filename toy_wrapper = ''a.txt''" by (rule f)
  have "from_hex toy_ciphertext = ct"
    unfolding enc by (rule from_hex_toString_hex)
  with seal t show "\<exists>tg. cipher_seal toy_runtime this_algorithm
           (derived_key toy_runtime ''password1'' (salt_drawn toy_draws)) aad
           (utf8_encode (toString_base64 [1, 2, 3])) = Inr (from_hex toy_ciphertext, tg) \<and>
        tag (w_metadata toy_wrapper) = toString_hex tg"
    by blast
qed

lemma toy_decryptFile_wrong_password:
  "decryptFile toy_runtime toy_ciphertext (w_metadata toy_wrapper) ''password2'' =
     Inl (Error ''Decryption failed: Unsupported state or unable to authenticate data'')"
proof -
  from toy_wrapper_fields(3) obtain tg where
    seal: "cipher_seal toy_runtime this_algorithm
           (derived_key toy_runtime ''password1'' (salt_drawn toy_draws)) aad
           (utf8_encode (toString_base64 [1, 2, 3])) = Inr (from_hex toy_ciphertext, tg)"
    and t: "tag (w_metadata toy_wrapper) = toString_hex tg"
    by blast
  from seal have tg: "tg = derived_key toy_runtime ''password1'' (salt_drawn toy_draws)"
    by (simp add: toy_runtime_def toy_seal_def)
  have k: "derived_key toy_runtime ''password2'' (salt_drawn toy_draws) \<noteq>
           derived_key toy_runtime ''password1'' (salt_drawn toy_draws)"
    using toy_keys_differ by (simp add: deriveKey_Inr)
  have "decipher_open toy_runtime this_algorithm
          (derived_key toy_runtime ''password2'' (salt_drawn toy_draws)) tg aad
          (from_hex toy_ciphertext) =
        Inl ''Unsupported state or unable to authenticate data''"
    using k by (simp add: toy_runtime_def toy_open_def tg)
  then show ?thesis
    by (simp add: decryptFile_def decrypt_eq toy_wrapper_fields(1) t from_hex_toString_hex)
qed

lemma toy_wrong_password_download:
  "post_download toy_runtime toy_wrapper toy_ciphertext ''password2'' =
     (Json 400 ''Invalid password or corrupted file'',
      [Error ''Decryption failed: Unsupported state or unable to authenticate data''])"
  using toy_decryptFile_wrong_password
  by (simp add: post_download_def toy_wrapper_integrity verifyIntegrity_own_hash
        download_catch_def)

lemma decryptFile_InlD:
  assumes "decryptFile cr enc m W = Inl e"
  shows "\<exists>msg. e = Error (''Decryption failed: '' @ msg)"
  using assms by (auto simp: decryptFile_def decrypt_eq split: sum.splits)

text \<open>
  C7 as stated fails: after a failed integrity check the caller is told
  \<open>File integrity check failed\<close>, after a wrong password
  \<open>Invalid password or corrupted file\<close>.
\<close>

theorem integrity_message_counterexample:
  "fst (post_download toy_runtime toy_wrapper ''42524a44'' ''password1'') =
     Json 400 ''File integrity check failed'' \<and>
   fst (post_download toy_runtime toy_wrapper toy_ciphertext ''password2'') =
     Json 400 ''Invalid password or corrupted file'' \<and>
   fst (post_download toy_runtime toy_wrapper ''42524a44'' ''password1'') \<noteq>
     fst (post_download toy_runtime toy_wrapper toy_ciphertext ''password2'')"
  by (simp add: toy_tampered_download toy_wrong_password_download)

text \<open>
  C7, amended. When the integrity check returns false, the caller gets status
  400 with the message \<open>File integrity check failed\<close> and nothing is logged.
  When the check passes and decryption fails, the caller gets status 400 with
  the message \<open>Invalid password or corrupted file\<close> and the error is logged.
  The two failures share the status, not the message.
\<close>

theorem failure_responses:
  "(verifyIntegrity cr enc (w_metadata w) (w_integrity w) = Inr False \<longrightarrow>
      post_download cr w enc W = (Json 400 ''File integrity check failed'', [])) \<and>
   (verifyIntegrity cr enc (w_metadata w) (w_integrity w) = Inr True \<and>
    decryptFile cr enc (w_metadata w) W = Inl e \<longrightarrow>
      post_download cr w enc W = (Json 400 ''Invalid password or corrupted file'', [e]))"
proof (intro conjI impI)
  assume "verifyIntegrity cr enc (w_metadata w) (w_integrity w) = Inr False"
  then show "post_download cr w enc W = (Json 400 ''File integrity check failed'', [])"
    by (simp add: post_download_def)
next
  assume a: "verifyIntegrity cr enc (w_metadata w) (w_integrity w) = Inr True \<and>
    decryptFile cr enc (w_metadata w) W = Inl e"
  then obtain msg where "e = Error (''Decryption failed: '' @ msg)"
    using decryptFile_InlD by blast
  with a show "post_download cr w enc W = (Json 400 ''Invalid password or corrupted file'', [e])"
    by (simp add: post_download_def download_catch_def)
qed

theorem failure_responses_witness:
  "verifyIntegrity toy_runtime ''42524a44'' (w_metadata toy_wrapper) (w_integrity toy_wrapper) =
     Inr False \<and>
   post_download toy_runtime toy_wrapper ''42524a44'' ''password1'' =
     (Json 400 ''File integrity check failed'', []) \<and>
   verifyIntegrity toy_runtime toy_ciphertext (w_metadata toy_wrapper) (w_integrity toy_wrapper) =
     Inr True \<and>
   decryptFile toy_runtime toy_ciphertext (w_metadata toy_wrapper) ''password2'' =
     Inl (Error ''Decryption failed: Unsupported state or unable to authenticate data'') \<and>
   post_download toy_runtime toy_wrapper toy_ciphertext ''password2'' =
     (Json 400 ''Invalid password or corrupted file'',
      [Error ''Decryption failed: Unsupported state or unable to authenticate data''])"
proof -
  have v: "verifyIntegrity toy_runtime toy_ciphertext (w_metadata toy_wrapper)
             (w_integrity toy_wrapper) = Inr True"
    by (simp add: toy_wrapper_integrity verifyIntegrity_own_hash)
  from failure_responses[of toy_runtime "''42524a44''" toy_wrapper "''password1''"]
    toy_verify_tampered
  have 1: "post_download toy_runtime toy_wrapper ''42524a44'' ''password1'' =
     (Json 400 ''File integrity check failed'', [])"
    by blast
  from failure_responses[of toy_runtime toy_ciphertext toy_wrapper "''password2''"
      "Error ''Decryption failed: Unsupported state or unable to authenticate data''"]
    v toy_decryptFile_wrong_password
  have 2: "post_download toy_runtime toy_wrapper toy_ciphertext ''password2'' =
     (Json 400 ''Invalid password or corrupted file'',
      [Error ''Decryption failed: Unsupported state or unable to authenticate data''])"
    by blast
  show ?thesis
    using toy_verify_tampered v toy_decryptFile_wrong_password 1 2 by blast
qed

section \<open>Deleting a key\<close>

lemma keys_of_remove_key: "keys_of (remove_key st key) = filter (\<lambda>k. k \<noteq> key) (keys_of st)"
  by (induction "objects st" arbitrary: st)
     (auto simp: keys_of_def remove_key_def filter_map comp_def case_prod_unfold)

lemma storageType_remove_key: "storageType (remove_key st key) = storageType st"
  by (simp add: remove_key_def)

lemma deleteFile_S3:
  "storageType st = S3 \<Longrightarrow> deleteFile st key = (Inr True, remove_key st key)"
  by (simp add: deleteFile_def deleteFromS3_def)

lemma deleteFile_Local_present:
  "storageType st = Local \<Longrightarrow> key \<in> set (keys_of st) \<Longrightarrow>
     deleteFile st key = (Inr True, remove_key st key)"
  by (simp add: deleteFile_def deleteFromLocal_def)






section \<open>The reconciliation sweep\<close>

lemma str_replace_prefix:
  assumes "p \<noteq> []"
  shows "str_replace (p @ r) p rep = rep @ r"
proof -
  from assms obtain c s where cs: "p @ r = c # s"
    by (cases "p @ r") auto
  have "prefix p (c # s)"
    unfolding cs[symmetric] by simp
  then have "str_replace (c # s) p rep = rep @ drop (length p) (c # s)"
    by simp
  then show ?thesis
    unfolding cs[symmetric] by simp
qed

lemma str_replace_json_suffix:
  "CHR ''.'' \<notin> set i \<Longrightarrow> str_replace (i @ ''.json'') ''.json'' [] = i"
  by (induction i) auto

lemma listed_encrypted:
  assumes "listed_whole st"
  shows "filter (\<lambda>file. startsWith file ''encrypted/'') (listFiles st []) =
         filter (\<lambda>file. startsWith file ''encrypted/'') (keys_of st)"
  using assms
  by (cases "storageType st")
     (auto simp: listed_whole_def listFiles_def listFromS3_def listFromLocal_def
        startsWith_def keys_of_def)

lemma listed_metadata:
  assumes "listed_whole st"
  shows "filter (\<lambda>file. startsWith file ''metadata/'') (listFiles st []) =
         filter (\<lambda>file. startsWith file ''metadata/'') (keys_of st)"
  using assms
  by (cases "storageType st")
     (auto simp: listed_whole_def listFiles_def listFromS3_def listFromLocal_def
        startsWith_def keys_of_def)

lemma startsWith_append: "startsWith (p @ r) p"
  by (simp add: startsWith_def)

lemma startsWithD: "startsWith k p \<Longrightarrow> \<exists>r. k = p @ r"
  by (auto simp: startsWith_def prefix_def)

lemma set_orphaned_encrypted:
  "set (orphaned_encrypted
         (filter (\<lambda>file. startsWith file ''encrypted/'') (keys_of st))
         (filter (\<lambda>file. startsWith file ''metadata/'') (keys_of st))) =
   (\<lambda>i. ''encrypted/'' @ i) ` (ciphertext_ids st - metadata_ids st)"
proof (intro set_eqI iffI)
  fix k
  assume "k \<in> set (orphaned_encrypted
         (filter (\<lambda>file. startsWith file ''encrypted/'') (keys_of st))
         (filter (\<lambda>file. startsWith file ''metadata/'') (keys_of st)))"
  then have k: "k \<in> set (keys_of st)" "startsWith k ''encrypted/''"
    and o: "''metadata/'' @ str_replace k ''encrypted/'' [] @ ''.json'' \<notin>
            set (filter (\<lambda>file. startsWith file ''metadata/'') (keys_of st))"
    by (simp_all add: orphaned_encrypted_def Let_def)
  from startsWithD[OF k(2)] obtain i where i: "k = ''encrypted/'' @ i" by blast
  have r: "str_replace k ''encrypted/'' [] = i"
    unfolding i by (subst str_replace_prefix) simp_all
  have "startsWith (''metadata/'' @ i @ ''.json'') ''metadata/''"
    by (rule startsWith_append)
  with o have "''metadata/'' @ i @ ''.json'' \<notin> set (keys_of st)"
    by (simp add: r)
  with k(1) have "i \<in> ciphertext_ids st - metadata_ids st"
    by (simp add: ciphertext_ids_def metadata_ids_def i)
  then show "k \<in> (\<lambda>i. ''encrypted/'' @ i) ` (ciphertext_ids st - metadata_ids st)"
    unfolding i by (rule imageI)
next
  fix k
  assume "k \<in> (\<lambda>i. ''encrypted/'' @ i) ` (ciphertext_ids st - metadata_ids st)"
  then obtain i where i: "k = ''encrypted/'' @ i"
    and c: "''encrypted/'' @ i \<in> set (keys_of st)"
    and m: "''metadata/'' @ i @ ''.json'' \<notin> set (keys_of st)"
    by (auto simp: ciphertext_ids_def metadata_ids_def)
  have r: "str_replace k ''encrypted/'' [] = i"
    unfolding i by (subst str_replace_prefix) simp_all
  have s: "startsWith k ''encrypted/''"
    unfolding i by (rule startsWith_append)
  show "k \<in> set (orphaned_encrypted
         (filter (\<lambda>file. startsWith file ''encrypted/'') (keys_of st))
         (filter (\<lambda>file. startsWith file ''metadata/'') (keys_of st)))"
    using c m s by (simp add: orphaned_encrypted_def Let_def r) (simp add: i)
qed

lemma set_orphaned_metadata:
  assumes "wellformed_keys st"
  shows "set (orphaned_metadata
         (filter (\<lambda>file. startsWith file ''encrypted/'') (keys_of st))
         (filter (\<lambda>file. startsWith file ''metadata/'') (keys_of st))) =
   (\<lambda>i. ''metadata/'' @ i @ ''.json'') ` (metadata_ids st - ciphertext_ids st)"
proof (intro set_eqI iffI)
  fix k
  assume "k \<in> set (orphaned_metadata
         (filter (\<lambda>file. startsWith file ''encrypted/'') (keys_of st))
         (filter (\<lambda>file. startsWith file ''metadata/'') (keys_of st)))"
  then have k: "k \<in> set (keys_of st)" "startsWith k ''metadata/''"
    and o: "''encrypted/'' @ str_replace (str_replace k ''metadata/'' []) ''.json'' [] \<notin>
            set (filter (\<lambda>file. startsWith file ''encrypted/'') (keys_of st))"
    by (simp_all add: orphaned_metadata_def Let_def)
  from assms k obtain i where i: "k = ''metadata/'' @ i @ ''.json''" and d: "CHR ''.'' \<notin> set i"
    unfolding wellformed_keys_def by blast
  have "str_replace k ''metadata/'' [] = i @ ''.json''"
    unfolding i by (subst str_replace_prefix) simp_all
  then have r: "str_replace (str_replace k ''metadata/'' []) ''.json'' [] = i"
    by (simp only: str_replace_json_suffix[OF d])
  have "startsWith (''encrypted/'' @ i) ''encrypted/''"
    by (rule startsWith_append)
  with o have "''encrypted/'' @ i \<notin> set (keys_of st)"
    by (simp add: r)
  with k(1) have "i \<in> metadata_ids st - ciphertext_ids st"
    by (simp add: ciphertext_ids_def metadata_ids_def i)
  then show "k \<in> (\<lambda>i. ''metadata/'' @ i @ ''.json'') ` (metadata_ids st - ciphertext_ids st)"
    unfolding i by (rule imageI)
next
  fix k
  assume "k \<in> (\<lambda>i. ''metadata/'' @ i @ ''.json'') ` (metadata_ids st - ciphertext_ids st)"
  then obtain j where j: "k = ''metadata/'' @ j @ ''.json''"
    and m: "k \<in> set (keys_of st)"
    and c: "''encrypted/'' @ j \<notin> set (keys_of st)"
    by (auto simp: ciphertext_ids_def metadata_ids_def)
  have s: "startsWith k ''metadata/''"
    unfolding j by (rule startsWith_append)
  from assms m s obtain i where i: "k = ''metadata/'' @ i @ ''.json''" and d: "CHR ''.'' \<notin> set i"
    unfolding wellformed_keys_def by blast
  from i j have ij: "i = j" by simp
  have "str_replace k ''metadata/'' [] = i @ ''.json''"
    unfolding i by (subst str_replace_prefix) simp_all
  then have r: "str_replace (str_replace k ''metadata/'' []) ''.json'' [] = j"
    using str_replace_json_suffix[OF d] by (simp only: ij)
  show "k \<in> set (orphaned_metadata
         (filter (\<lambda>file. startsWith file ''encrypted/'') (keys_of st))
         (filter (\<lambda>file. startsWith file ''metadata/'') (keys_of st)))"
    using c m s by (simp add: orphaned_metadata_def Let_def r)
qed

lemma find_orphans_listed:
  assumes "listed_whole st"
  shows "find_orphans (listFiles st []) =
         orphaned_encrypted
           (filter (\<lambda>file. startsWith file ''encrypted/'') (keys_of st))
           (filter (\<lambda>file. startsWith file ''metadata/'') (keys_of st)) @
         orphaned_metadata
           (filter (\<lambda>file. startsWith file ''encrypted/'') (keys_of st))
           (filter (\<lambda>file. startsWith file ''metadata/'') (keys_of st))"
  by (simp only: find_orphans_def Let_def listed_encrypted[OF assms] listed_metadata[OF assms])

lemma set_find_orphans:
  assumes "listed_whole st" and "wellformed_keys st"
  shows "set (find_orphans (listFiles st [])) = orphan_keys st"
  by (simp add: find_orphans_listed[OF assms(1)] set_orphaned_encrypted
        set_orphaned_metadata[OF assms(2)] orphan_keys_def)

lemma find_orphans_subset:
  assumes "listed_whole st"
  shows "set (find_orphans (listFiles st [])) \<subseteq> set (keys_of st)"
  by (auto simp: find_orphans_listed[OF assms] orphaned_encrypted_def orphaned_metadata_def)

lemma distinct_find_orphans:
  assumes "listed_whole st" and "distinct (keys_of st)"
  shows "distinct (find_orphans (listFiles st []))"
proof -
  have "startsWith k ''encrypted/'' \<Longrightarrow> startsWith k ''metadata/'' \<Longrightarrow> False" for k
    by (auto simp: startsWith_def prefix_def)
  then show ?thesis
    using assms(2)
    by (auto simp: find_orphans_listed[OF assms(1)] orphaned_encrypted_def orphaned_metadata_def)
qed

lemma delete_orphans_all:
  assumes "storageType st = S3 \<or> (distinct fs \<and> set fs \<subseteq> set (keys_of st))"
  shows "delete_orphans st fs =
           \<lparr>store = st\<lparr>objects := filter (\<lambda>(k, v). k \<notin> set fs) (objects st)\<rparr>,
            cleanedFiles = fs, logged = []\<rparr>"
  using assms
proof (induction fs arbitrary: st)
  case Nil
  show ?case by simp
next
  case (Cons f fs)
  have d: "deleteFile st f = (Inr True, remove_key st f)"
    using Cons.prems
    by (cases "storageType st") (auto simp: deleteFile_S3 deleteFile_Local_present)
  have "storageType (remove_key st f) = S3 \<or>
        (distinct fs \<and> set fs \<subseteq> set (keys_of (remove_key st f)))"
    using Cons.prems by (auto simp: storageType_remove_key keys_of_remove_key)
  from Cons.IH[OF this]
  have "delete_orphans (remove_key st f) fs =
          \<lparr>store = st\<lparr>objects := filter (\<lambda>(k, v). k \<notin> set (f # fs)) (objects st)\<rparr>,
           cleanedFiles = fs, logged = []\<rparr>"
    by (simp add: remove_key_def case_prod_unfold conj_commute)
  then show ?case
    by (simp add: d)
qed

text \<open>
  On a whole listing the sweep does what the specification asks. Over a store
  with distinct, well-formed keys it deletes exactly the blobs of the
  identifiers in the symmetric difference of the ciphertext identifiers and
  the metadata identifiers: every other object, both blobs of every identifier
  in the intersection among them, stays as it is; every deletion succeeds, and
  the files reported as cleaned are the orphans.
\<close>

theorem sweep_symmetric_difference:
  assumes "distinct (keys_of st)" and "wellformed_keys st" and "listed_whole st"
  shows "objects (store (snd (post_cleanup st))) =
           filter (\<lambda>(k, v). k \<notin> orphan_keys st) (objects st) \<and>
         set (keys_of (store (snd (post_cleanup st)))) = set (keys_of st) - orphan_keys st \<and>
         set (cleaned (fst (post_cleanup st))) = orphan_keys st \<and>
         cleaned (fst (post_cleanup st)) = orphanedFiles (fst (post_cleanup st)) \<and>
         logged (snd (post_cleanup st)) = []"
proof -
  let ?fs = "find_orphans (listFiles st [])"
  have "storageType st = S3 \<or> (distinct ?fs \<and> set ?fs \<subseteq> set (keys_of st))"
    using distinct_find_orphans[OF assms(3) assms(1)] find_orphans_subset[OF assms(3)] by simp
  from delete_orphans_all[OF this]
  have d: "delete_orphans st ?fs =
           \<lparr>store = st\<lparr>objects := filter (\<lambda>(k, v). k \<notin> orphan_keys st) (objects st)\<rparr>,
            cleanedFiles = ?fs, logged = []\<rparr>"
    by (simp add: set_find_orphans[OF assms(3) assms(2)])
  have k: "set (keys_of (st\<lparr>objects := filter (\<lambda>(k, v). k \<notin> orphan_keys st) (objects st)\<rparr>)) =
           set (keys_of st) - orphan_keys st"
    by (auto simp: keys_of_def)
  show ?thesis
    using k by (simp add: post_cleanup_def Let_def d cleanup_report_def
          set_find_orphans[OF assms(3) assms(2)])
qed

lemma toy_store_wellformed: "wellformed_keys toy_store"
proof -
  have a: "\<exists>i. ''metadata/a1.json'' = ''metadata/'' @ i @ ''.json'' \<and> CHR ''.'' \<notin> set i"
    by (rule exI[of _ "''a1''"]) simp
  have c: "\<exists>i. ''metadata/c3.json'' = ''metadata/'' @ i @ ''.json'' \<and> CHR ''.'' \<notin> set i"
    by (rule exI[of _ "''c3''"]) simp
  show ?thesis
    using a c by (simp add: wellformed_keys_def toy_store_def keys_of_def startsWith_def)
qed

lemma toy_store_distinct: "distinct (keys_of toy_store)"
  by (simp add: toy_store_def keys_of_def)

lemma toy_store_listed: "listed_whole toy_store"
  by (simp add: listed_whole_def toy_store_def)

lemma toy_store_swept:
  "objects (store (snd (post_cleanup toy_store))) =
     [(''encrypted/a1'', ''4252''), (''metadata/a1.json'', ''{}'')] \<and>
   cleaned (fst (post_cleanup toy_store)) = [''encrypted/b2'', ''metadata/c3.json'']"
  by (simp add: post_cleanup_def toy_store_def listFiles_def listFromLocal_def keys_of_def
        find_orphans_def orphaned_encrypted_def orphaned_metadata_def startsWith_def
        deleteFile_def deleteFromLocal_def remove_key_def cleanup_report_def Let_def)

theorem sweep_symmetric_difference_witness:
  "distinct (keys_of toy_store) \<and> wellformed_keys toy_store \<and> listed_whole toy_store \<and>
   objects (store (snd (post_cleanup toy_store))) =
     filter (\<lambda>(k, v). k \<notin> orphan_keys toy_store) (objects toy_store) \<and>
   objects (store (snd (post_cleanup toy_store))) =
     [(''encrypted/a1'', ''4252''), (''metadata/a1.json'', ''{}'')] \<and>
   set (keys_of (store (snd (post_cleanup toy_store)))) =
     set (keys_of toy_store) - orphan_keys toy_store \<and>
   set (cleaned (fst (post_cleanup toy_store))) = orphan_keys toy_store \<and>
   cleaned (fst (post_cleanup toy_store)) = [''encrypted/b2'', ''metadata/c3.json''] \<and>
   logged (snd (post_cleanup toy_store)) = []"
  using toy_store_distinct toy_store_wellformed toy_store_listed toy_store_swept
    sweep_symmetric_difference[OF toy_store_distinct toy_store_wellformed toy_store_listed]
  by blast

lemma big_bucket_keys:
  "keys_of big_bucket =
     map (\<lambda>n. ''encrypted/'' @ uuid_n n) [0..<1000] @ [''metadata/'' @ uuid_n 0 @ ''.json'']"
  by (simp add: big_bucket_def keys_of_def comp_def)

lemma big_bucket_listing:
  "listFiles big_bucket [] = map (\<lambda>n. ''encrypted/'' @ uuid_n n) [0..<1000]"
proof -
  have "filter (\<lambda>k. startsWith k []) (keys_of big_bucket) = keys_of big_bucket"
    by (simp add: startsWith_def)
  then show ?thesis
    by (simp add: listFiles_def listFromS3_def big_bucket_keys) (simp add: big_bucket_def)
qed

lemma big_bucket_orphans:
  "find_orphans (listFiles big_bucket []) = map (\<lambda>n. ''encrypted/'' @ uuid_n n) [0..<1000]"
proof -
  let ?E = "map (\<lambda>n. ''encrypted/'' @ uuid_n n) [0..<1000]"
  have e: "filter (\<lambda>file. startsWith file ''encrypted/'') ?E = ?E"
    by (simp add: startsWith_def filter_map comp_def)
  have m: "filter (\<lambda>file. startsWith file ''metadata/'') ?E = []"
    by (simp add: startsWith_def filter_map comp_def)
  show ?thesis
    by (simp only: big_bucket_listing find_orphans_def Let_def e m)
       (simp add: orphaned_encrypted_def orphaned_metadata_def)
qed

text \<open>
  C5. The claim: whatever identifiers have a ciphertext blob and whatever
  identifiers have a metadata blob in the store, the sweep deletes exactly the
  blobs of the symmetric difference and leaves both blobs of every identifier
  in the intersection. \<open>listFromLocal\<close> lists every file, and there the
  claim holds (\<open>sweep_symmetric_difference\<close>); \<open>listFromS3\<close> reads one page
  of the listing. In the bucket of 1001 objects the metadata blob of the first
  identifier is on the second page: the identifier has both blobs, and the
  sweep deletes its ciphertext and reports it as cleaned.
\<close>

theorem sweep_truncated_listing:
  "uuid_n 0 \<in> ciphertext_ids big_bucket \<inter> metadata_ids big_bucket \<and>
   ''encrypted/'' @ uuid_n 0 \<in> set (cleaned (fst (post_cleanup big_bucket))) \<and>
   ''encrypted/'' @ uuid_n 0 \<notin> set (keys_of (store (snd (post_cleanup big_bucket))))"
proof -
  let ?E = "map (\<lambda>n. ''encrypted/'' @ uuid_n n) [0..<1000]"
  have d: "delete_orphans big_bucket ?E =
           \<lparr>store = big_bucket\<lparr>objects := filter (\<lambda>(k, v). k \<notin> set ?E) (objects big_bucket)\<rparr>,
            cleanedFiles = ?E, logged = []\<rparr>"
    by (rule delete_orphans_all) (simp add: big_bucket_def)
  have i: "''encrypted/'' @ uuid_n 0 \<in> set ?E"
    by simp
  have 1: "uuid_n 0 \<in> ciphertext_ids big_bucket \<inter> metadata_ids big_bucket"
    using i by (simp add: ciphertext_ids_def metadata_ids_def big_bucket_keys)
  have pc: "post_cleanup big_bucket =
            (cleanup_report ?E (delete_orphans big_bucket ?E), delete_orphans big_bucket ?E)"
    by (simp only: post_cleanup_def Let_def big_bucket_orphans)
  have 2: "''encrypted/'' @ uuid_n 0 \<in> set (cleaned (fst (post_cleanup big_bucket)))"
    unfolding pc d using i by (simp add: cleanup_report_def)
  have "''encrypted/'' @ uuid_n 0 \<notin>
        set (keys_of (big_bucket\<lparr>objects := filter (\<lambda>(k, v). k \<notin> set ?E) (objects big_bucket)\<rparr>))"
    using i by (auto simp: keys_of_def)
  then have 3: "''encrypted/'' @ uuid_n 0 \<notin> set (keys_of (store (snd (post_cleanup big_bucket))))"
    unfolding pc d by simp
  from 1 2 3 show ?thesis by blast
qed

end
